theory Spec2Isabelle
  imports Main "HOL-Library.Word"
begin

unbundle bit_operations_syntax

section \<open>The gonc header reader (package gonc, the version with variables)\<close>

text \<open>
  The Go package \<^verbatim>\<open>gonc\<close> reads the header of a NetCDF classic file from an
  \<^verbatim>\<open>*os.File\<close>: the magic bytes, the format byte, the record count, the dimension
  list and the variable list (each variable with its own attribute list).
  The embedding below follows \<^verbatim>\<open>Open\<close>, \<^verbatim>\<open>readU32\<close>, \<^verbatim>\<open>readString\<close>, \<^verbatim>\<open>readDimList\<close>,
  \<^verbatim>\<open>readAttrList\<close> and \<^verbatim>\<open>readVarList\<close> statement by statement.

  What the embedding takes from the platform: the path names a regular file that
  \<^verbatim>\<open>os.Open\<close> opens, and the file is given by its bytes; \<^verbatim>\<open>Read\<close> stores every byte that is
  there, up to the size of the buffer; a forward \<^verbatim>\<open>Seek\<close> does not fail; \<^verbatim>\<open>int\<close> has 64 bits;
  \<^verbatim>\<open>make\<close> always gets its memory. \<^verbatim>\<open>Close\<close> has no part in the result and is left out.
\<close>

subsection \<open>Data model\<close>

type_synonym byte = "8 word"
type_synonym uint32 = "32 word"

text \<open>A Go string is an immutable sequence of bytes; \<^verbatim>\<open>string(buf)\<close> keeps every byte.\<close>

type_synonym gostring = "byte list"

record Dimension =
  Name :: gostring
  Length :: uint32

record Attribute =
  Name :: gostring
  Type :: uint32
  Values :: "byte list"

record Variable =
  Name :: gostring
  DimIDs :: "uint32 list"
  DataType :: uint32
  VSize :: uint32
  Offset :: uint32
  Attrs :: "Attribute list"

text \<open>
  The struct \<^verbatim>\<open>File\<close> without its handle \<^verbatim>\<open>f\<close>: the state of the handle is threaded
  through the readers explicitly (\<open>osFile\<close> below).
\<close>

record File =
  Format :: byte
  NumRecs :: uint32
  Dims :: "Dimension list"
  Vars :: "Variable list"

definition ClassicFormat :: byte where
  "ClassicFormat = 1"

definition Format64BitOffset :: byte where
  "Format64BitOffset = 2"

text \<open>
  The error values of the package: \<open>EOF\<close> is \<^verbatim>\<open>io.EOF\<close> as returned by \<^verbatim>\<open>f.Read\<close>;
  the others are the messages built with \<^verbatim>\<open>errors.New\<close> and \<^verbatim>\<open>fmt.Errorf\<close>
  ("not a NetCDF file", "unsupported NetCDF format: %d", "invalid dim_list tag: %d",
  "invalid attr_list tag: %d", "invalid var_list tag: %d").
\<close>

datatype error =
    EOF
  | NotNetCDF
  | UnsupportedFormat byte
  | InvalidDimListTag uint32
  | InvalidAttrListTag uint32
  | InvalidVarListTag uint32

subsection \<open>The file handle\<close>

text \<open>
  An open regular file: its contents and the current offset. The offset may lie beyond the
  end of the contents (a relative seek is not bounded by the file size).
  The field \<open>skipped\<close> is a history variable that no operation reads: it records the
  offsets that were passed over by \<^verbatim>\<open>Seek\<close> instead of being read.
\<close>

record osFile =
  data :: "byte list"
  pos :: nat
  skipped :: "nat set"

type_synonym 'a io = "osFile \<Rightarrow> (error + 'a) \<times> osFile"

definition succeed :: "'a \<Rightarrow> 'a io" where
  "succeed x f = (Inr x, f)"

definition throw :: "error \<Rightarrow> 'a io" where
  "throw e f = (Inl e, f)"

text \<open>
  \<open>bindE m k\<close> is the Go idiom \<^verbatim>\<open>x, err := m(); if err != nil { return err }; k(x)\<close>.
\<close>

definition bindE :: "'a io \<Rightarrow> ('a \<Rightarrow> 'b io) \<Rightarrow> 'b io" where
  "bindE m k f = (case m f of (Inl err, f') \<Rightarrow> (Inl err, f') | (Inr x, f') \<Rightarrow> k x f')"

text \<open>
  \<^verbatim>\<open>buf := make([]byte, k); _, err = f.Read(buf)\<close> on a regular file.
  \<^verbatim>\<open>Read\<close> returns at once with no error for an empty buffer; at end of file it returns
  \<^verbatim>\<open>0, io.EOF\<close>; otherwise it stores the bytes that are there, up to \<open>k\<close> of them, and
  returns their number with a nil error. The callers drop that number, so a short read
  leaves the tail of the freshly made buffer zero. The result is the buffer.
\<close>

definition fRead :: "nat \<Rightarrow> byte list io" where
  "fRead k f =
     (if k = 0 then (Inr [], f)
      else if length (data f) \<le> pos f then (Inl EOF, f)
      else
        let got = take k (drop (pos f) (data f))
        in (Inr (got @ replicate (k - length got) 0), f\<lparr>pos := pos f + length got\<rparr>))"

text \<open>
  \<^verbatim>\<open>f.Seek(int64(k), 1)\<close>: a relative seek forward. On a regular file it succeeds also
  beyond the end of the file; it returns the new offset.
\<close>

definition fSeek :: "nat \<Rightarrow> nat io" where
  "fSeek k f =
     (Inr (pos f + k), f\<lparr>pos := pos f + k, skipped := skipped f \<union> {pos f ..< pos f + k}\<rparr>)"

text \<open>
  \<^verbatim>\<open>binary.BigEndian.Uint32(b)\<close>:
  \<^verbatim>\<open>uint32(b[3]) | uint32(b[2])<<8 | uint32(b[1])<<16 | uint32(b[0])<<24\<close>.
  Every caller passes a buffer of four bytes.
\<close>

definition Uint32 :: "byte list \<Rightarrow> uint32" where
  "Uint32 b =
     ucast (b ! 3) OR push_bit 8 (ucast (b ! 2)) OR push_bit 16 (ucast (b ! 1))
       OR push_bit 24 (ucast (b ! 0))"

subsection \<open>Primitive decoders\<close>

definition readU32 :: "uint32 io" where
  "readU32 = bindE (fRead 4) (\<lambda>buf. succeed (Uint32 buf))"

definition readString :: "gostring io" where
  "readString =
     bindE readU32 (\<lambda>n.
     bindE (fRead (unat n)) (\<lambda>buf.
       let pad = (4 - (n mod 4)) mod 4 in
       bindE (if pad > 0 then bindE (fSeek (unat pad)) (\<lambda>_. succeed ()) else succeed ()) (\<lambda>_.
       succeed buf)))"

subsection \<open>The dimension list\<close>

text \<open>
  The loop \<^verbatim>\<open>for i := 0; i < int(nelems); i++\<close> of \<^verbatim>\<open>readDimList\<close>, by the number of
  iterations left and the slice built so far (\<^verbatim>\<open>int\<close> has 64 bits, so \<^verbatim>\<open>int(nelems)\<close> is
  the value of \<^verbatim>\<open>nelems\<close>).
\<close>

fun readDims :: "nat \<Rightarrow> Dimension list \<Rightarrow> Dimension list io" where
  "readDims 0 dims = succeed dims"
| "readDims (Suc k) dims =
     bindE readString (\<lambda>name.
     bindE readU32 (\<lambda>length.
     readDims k (dims @ [\<lparr>Dimension.Name = name, Length = length\<rparr>])))"

definition readDimList :: "File \<Rightarrow> File io" where
  "readDimList nc =
     bindE readU32 (\<lambda>tag.
       if tag = 0 then succeed (nc\<lparr>Dims := []\<rparr>)
       else if tag \<noteq> 0x0A then throw (InvalidDimListTag tag)
       else
         bindE readU32 (\<lambda>nelems.
         bindE (readDims (unat nelems) []) (\<lambda>dims.
         succeed (nc\<lparr>Dims := dims\<rparr>))))"

subsection \<open>The attribute list\<close>

text \<open>
  The loop of \<^verbatim>\<open>readAttrList\<close>. The result of the \<^verbatim>\<open>Seek\<close> over the padding is dropped
  by the source.
\<close>

fun readAttrs :: "nat \<Rightarrow> Attribute list \<Rightarrow> Attribute list io" where
  "readAttrs 0 attrs = succeed attrs"
| "readAttrs (Suc k) attrs =
     bindE readString (\<lambda>name.
     bindE readU32 (\<lambda>atype.
     bindE readU32 (\<lambda>nvals.
     bindE (fRead (unat nvals)) (\<lambda>buf.
       let pad = (4 - (nvals mod 4)) mod 4 in
       (\<lambda>f. readAttrs k (attrs @ [\<lparr>Attribute.Name = name, Type = atype, Values = buf\<rparr>])
              (if pad > 0 then snd (fSeek (unat pad) f) else f))))))"

definition readAttrList :: "Attribute list io" where
  "readAttrList =
     bindE readU32 (\<lambda>tag.
       if tag = 0 then succeed []
       else if tag \<noteq> 0x0C then throw (InvalidAttrListTag tag)
       else
         bindE readU32 (\<lambda>nelems.
         bindE (readAttrs (unat nelems) []) (\<lambda>attrs.
         succeed attrs)))"

subsection \<open>The variable list\<close>

text \<open>
  The inner loop \<^verbatim>\<open>for j := uint32(0); j < nDims; j++\<close> that fills \<^verbatim>\<open>dimIDs\<close>, by the
  number of iterations left and the entries read so far.
\<close>

fun readDimIDs :: "nat \<Rightarrow> uint32 list \<Rightarrow> uint32 list io" where
  "readDimIDs 0 ids = succeed ids"
| "readDimIDs (Suc k) ids = bindE readU32 (\<lambda>d. readDimIDs k (ids @ [d]))"

text \<open>The outer loop of \<^verbatim>\<open>readVarList\<close>.\<close>

fun readVars :: "nat \<Rightarrow> Variable list \<Rightarrow> Variable list io" where
  "readVars 0 vars = succeed vars"
| "readVars (Suc k) vars =
     bindE readString (\<lambda>name.
     bindE readU32 (\<lambda>nDims.
     bindE (readDimIDs (unat nDims) []) (\<lambda>dimIDs.
     bindE readAttrList (\<lambda>attrs.
     bindE readU32 (\<lambda>dtype.
     bindE readU32 (\<lambda>vsize.
     bindE readU32 (\<lambda>offset.
     readVars k (vars @ [\<lparr>Variable.Name = name, DimIDs = dimIDs, DataType = dtype,
                          VSize = vsize, Offset = offset, Attrs = attrs\<rparr>]))))))))"

definition readVarList :: "File \<Rightarrow> File io" where
  "readVarList nc =
     bindE readU32 (\<lambda>tag.
       if tag = 0 then succeed (nc\<lparr>Vars := []\<rparr>)
       else if tag \<noteq> 0x0B then throw (InvalidVarListTag tag)
       else
         bindE readU32 (\<lambda>nelems.
         bindE (readVars (unat nelems) []) (\<lambda>vars.
         succeed (nc\<lparr>Vars := vars\<rparr>))))"

subsection \<open>Open\<close>

text \<open>The literal \<^verbatim>\<open>"CDF"\<close>.\<close>

definition CDF :: gostring where
  "CDF = [0x43, 0x44, 0x46]"

text \<open>
  The body of \<^verbatim>\<open>Open\<close> once \<^verbatim>\<open>os.Open\<close> has returned the handle. The result is the pair
  \<^verbatim>\<open>(*File, error)\<close> that the Go function returns, \<open>None\<close> standing for \<^verbatim>\<open>nil\<close>, together
  with the final state of the handle.
\<close>

definition Open_from :: "osFile \<Rightarrow> (File option \<times> error option) \<times> osFile" where
  "Open_from f0 =
     (case fRead 4 f0 of
        (Inl err, f1) \<Rightarrow> ((None, Some err), f1)
      | (Inr header, f1) \<Rightarrow>
          if take 3 header \<noteq> CDF then ((None, Some NotNetCDF), f1)
          else
            let format = header ! 3 in
            if format \<noteq> ClassicFormat \<and> format \<noteq> Format64BitOffset
            then ((None, Some (UnsupportedFormat format)), f1)
            else
              (case fRead 4 f1 of
                 (Inl err, f2) \<Rightarrow> ((None, Some err), f2)
               | (Inr buf, f2) \<Rightarrow>
                   let numrecs = Uint32 buf;
                       nc = \<lparr>Format = format, NumRecs = numrecs, Dims = [], Vars = []\<rparr>
                   in
                   (case readDimList nc f2 of
                      (Inl err, f3) \<Rightarrow> ((None, Some err), f3)
                    | (Inr nc1, f3) \<Rightarrow>
                        (case readVarList nc1 f3 of
                           (Inl err, f4) \<Rightarrow> ((None, Some err), f4)
                         | (Inr nc2, f4) \<Rightarrow> ((Some nc2, None), f4)))))"

text \<open>A freshly opened file with the given contents.\<close>

definition opened :: "byte list \<Rightarrow> osFile" where
  "opened bs = \<lparr>data = bs, pos = 0, skipped = {}\<rparr>"

text \<open>\<^verbatim>\<open>Open(path)\<close> for a path that \<^verbatim>\<open>os.Open\<close> opens, by the contents of the file.\<close>

definition Open :: "byte list \<Rightarrow> File option \<times> error option" where
  "Open bs = fst (Open_from (opened bs))"

subsection \<open>Notions used to state the properties\<close>

text \<open>The 32-bit word that the next four bytes of the file encode.\<close>

definition word_at :: "osFile \<Rightarrow> uint32" where
  "word_at f = Uint32 (take 4 (drop (pos f) (data f)))"

text \<open>
  A file that holds the eight leading bytes in full, with the magic and a format byte that
  \<^verbatim>\<open>Open\<close> accepts; the handle and the \<^verbatim>\<open>File\<close> value as they are when \<^verbatim>\<open>Open\<close> calls
  \<^verbatim>\<open>readDimList\<close> on such a file.
\<close>

definition header_ok :: "byte list \<Rightarrow> bool" where
  "header_ok bs \<longleftrightarrow>
     8 \<le> length bs \<and> take 3 bs = CDF \<and> (bs ! 3 = ClassicFormat \<or> bs ! 3 = Format64BitOffset)"

definition after_header :: "byte list \<Rightarrow> osFile" where
  "after_header bs = \<lparr>data = bs, pos = 8, skipped = {}\<rparr>"

definition initial_File :: "byte list \<Rightarrow> File" where
  "initial_File bs =
     \<lparr>Format = bs ! 3, NumRecs = Uint32 (take 4 (drop 4 bs)), Dims = [], Vars = []\<rparr>"

text \<open>The pair \<^verbatim>\<open>(*File, error)\<close> that \<^verbatim>\<open>Open\<close> makes of the outcome of a list reader.\<close>

definition returned :: "(error + File) \<times> osFile \<Rightarrow> File option \<times> error option" where
  "returned r = (case fst r of Inl err \<Rightarrow> (None, Some err) | Inr nc \<Rightarrow> (Some nc, None))"

subsection \<open>Sample files\<close>





text \<open>
  The files of the end-to-end scenario with a variable: a classic header with record count
  0, a dimension list with the one dimension ("lat", 180), and a variable list with the one
  variable "temp" (one dimension id 0, absent attribute list, type 5, vsize 720, offset
  1024). In \<open>scenario_file\<close> the word 0 of an absent global attribute list stands between
  the two lists, as the grammar lays the header out; in \<open>dims_vars_file\<close> the variable list
  follows the dimension list directly.
\<close>

definition classic_header :: "byte list" where
  "classic_header = [0x43, 0x44, 0x46, 1,  0, 0, 0, 0]"

definition lat_dim_list :: "byte list" where
  "lat_dim_list =
     [0, 0, 0, 0x0A,  0, 0, 0, 1,
      0, 0, 0, 3,  0x6C, 0x61, 0x74, 0,  0, 0, 0, 0xB4]"

definition temp_var_list :: "byte list" where
  "temp_var_list =
     [0, 0, 0, 0x0B,  0, 0, 0, 1,
      0, 0, 0, 4,  0x74, 0x65, 0x6D, 0x70,
      0, 0, 0, 1,  0, 0, 0, 0,
      0, 0, 0, 0,
      0, 0, 0, 5,  0, 0, 0x02, 0xD0,  0, 0, 0x04, 0]"

definition scenario_file :: "byte list" where
  "scenario_file = classic_header @ lat_dim_list @ [0, 0, 0, 0] @ temp_var_list"

definition dims_vars_file :: "byte list" where
  "dims_vars_file = classic_header @ lat_dim_list @ temp_var_list"

definition lat :: Dimension where
  "lat = \<lparr>Dimension.Name = [0x6C, 0x61, 0x74], Length = 180\<rparr>"

definition temp :: Variable where
  "temp = \<lparr>Variable.Name = [0x74, 0x65, 0x6D, 0x70], DimIDs = [0], DataType = 5, VSize = 720,
            Offset = 1024, Attrs = []\<rparr>"

text \<open>
  A file laid out per the grammar with a global attribute list: absent dimension list,
  the attribute list with the one attribute ("a", type 2, the one value byte \<^verbatim>\<open>0x78\<close>), absent
  variable list.
\<close>

definition gatt_file :: "byte list" where
  "gatt_file =
     classic_header @ [0, 0, 0, 0] @
     [0, 0, 0, 0x0C,  0, 0, 0, 1,
      0, 0, 0, 1,  0x61, 0, 0, 0,  0, 0, 0, 2,  0, 0, 0, 1,  0x78, 0, 0, 0] @
     [0, 0, 0, 0]"

subsection \<open>The header assembler as the specification words it\<close>

text \<open>
  This definition follows the words of the specification (section 4.2), not the source:
  magic, format byte, record count, then the dimension list, then the global attribute
  list (tag \<^verbatim>\<open>0x0C\<close>), then the variable list. It is here to be compared with \<open>Open\<close>.
  The list readers are the ones of the source.
\<close>

record ParsedHeader =
  header :: File
  globalAttrs :: "Attribute list"

definition parseHeader_spec :: "ParsedHeader io" where
  "parseHeader_spec =
     bindE (fRead 4) (\<lambda>magic.
       if take 3 magic \<noteq> CDF then throw NotNetCDF
       else if magic ! 3 \<noteq> 1 \<and> magic ! 3 \<noteq> 2 then throw (UnsupportedFormat (magic ! 3))
       else
         bindE readU32 (\<lambda>numrecs.
         bindE (readDimList \<lparr>Format = magic ! 3, NumRecs = numrecs, Dims = [], Vars = []\<rparr>) (\<lambda>nc1.
         bindE readAttrList (\<lambda>gatts.
         bindE (readVarList nc1) (\<lambda>nc2.
         succeed \<lparr>header = nc2, globalAttrs = gatts\<rparr>)))))"


text \<open>
  A file of the 64-bit-offset format (format byte 2) with one variable "t" (no dimensions,
  absent attribute list, type 5, vsize 4) whose offset field takes eight bytes, as the
  NetCDF grammar has it for that format: the value 1024.
\<close>

definition offset64_file :: "byte list" where
  "offset64_file =
     [0x43, 0x44, 0x46, 2,  0, 0, 0, 0,  0, 0, 0, 0,
      0, 0, 0, 0x0B,  0, 0, 0, 1,
      0, 0, 0, 1,  0x74, 0, 0, 0,  0, 0, 0, 0,
      0, 0, 0, 0,
      0, 0, 0, 5,  0, 0, 0, 4,  0, 0, 0, 0,  0, 0, 0x04, 0]"


subsection \<open>Notions for the bytes that are never read\<close>

text \<open>
  The offsets passed over so far all lie behind the current offset.
\<close>

definition behind :: "osFile \<Rightarrow> bool" where
  "behind f \<longleftrightarrow> skipped f \<subseteq> {..<pos f}"

text \<open>
  A reader that leaves the contents alone, moves the offset forward only, and adds to the
  passed-over offsets only offsets between the offset it started from and the offset it
  ended at.
\<close>

definition forward :: "'a io \<Rightarrow> bool" where
  "forward m \<longleftrightarrow>
     (\<forall>f r g. m f = (r, g) \<longrightarrow>
        data g = data f \<and> pos f \<le> pos g \<and> skipped f \<subseteq> skipped g \<and>
        skipped g \<subseteq> skipped f \<union> {pos f ..< pos g})"

text \<open>
  A reader whose outcome does not depend on the bytes it passes over: run on a second
  handle at the same offset, with contents of the same length that agree with the first at
  every offset between start and end that was not passed over, it returns the same value
  or error and ends in the same state.
\<close>

definition blind :: "'a io \<Rightarrow> bool" where
  "blind m \<longleftrightarrow>
     (\<forall>f f' r g.
        m f = (r, g) \<and> behind f \<and> pos f' = pos f \<and> skipped f' = skipped f \<and>
        length (data f') = length (data f) \<and>
        (\<forall>i. pos f \<le> i \<and> i < pos g \<and> i < length (data f) \<and> i \<notin> skipped g \<longrightarrow>
             data f' ! i = data f ! i) \<longrightarrow>
        m f' = (r, g\<lparr>data := data f'\<rparr>))"

text \<open>
  The body of \<^verbatim>\<open>Open\<close> written with \<open>bindE\<close>; \<open>Open_from\<close> is shown below to return the pair
  \<^verbatim>\<open>(nc, nil)\<close> or \<^verbatim>\<open>(nil, err)\<close> made of its outcome.
\<close>

definition Open_seq :: "File io" where
  "Open_seq =
     bindE (fRead 4) (\<lambda>header.
       if take 3 header \<noteq> CDF then throw NotNetCDF
       else
         let format = header ! 3 in
         if format \<noteq> ClassicFormat \<and> format \<noteq> Format64BitOffset
         then throw (UnsupportedFormat format)
         else
           bindE (fRead 4) (\<lambda>buf.
             let numrecs = Uint32 buf;
                 nc = \<lparr>Format = format, NumRecs = numrecs, Dims = [], Vars = []\<rparr>
             in bindE (readDimList nc) (\<lambda>nc1. readVarList nc1)))"

text \<open>
  The offsets that \<^verbatim>\<open>Open\<close> passes over with \<^verbatim>\<open>Seek\<close> on a file: the alignment padding after
  a text payload (\<^verbatim>\<open>readString\<close>) and after the value bytes of an attribute
  (\<^verbatim>\<open>readAttrList\<close>). Two files are the same off a set of offsets when they have the same
  length and the same byte at every offset outside the set.
\<close>

definition padding :: "byte list \<Rightarrow> nat set" where
  "padding bs = skipped (snd (Open_from (opened bs)))"

definition same_off :: "nat set \<Rightarrow> byte list \<Rightarrow> byte list \<Rightarrow> bool" where
  "same_off S bs bs' \<longleftrightarrow>
     length bs' = length bs \<and> (\<forall>i<length bs. i \<notin> S \<longrightarrow> bs' ! i = bs ! i)"

text \<open>
  A file with one variable "t" that has one attribute ("a", type 2, the one value byte
  \<^verbatim>\<open>0x78\<close>): three runs of three padding bytes, all zero; and the same file with other
  values in the nine padding bytes.
\<close>

definition attr_file :: "byte list" where
  "attr_file =
     [0x43, 0x44, 0x46, 1,  0, 0, 0, 0,  0, 0, 0, 0,
      0, 0, 0, 0x0B,  0, 0, 0, 1,
      0, 0, 0, 1,  0x74, 0, 0, 0,  0, 0, 0, 0,
      0, 0, 0, 0x0C,  0, 0, 0, 1,
      0, 0, 0, 1,  0x61, 0, 0, 0,  0, 0, 0, 2,  0, 0, 0, 1,  0x78, 0, 0, 0,
      0, 0, 0, 5,  0, 0, 0, 4,  0, 0, 0, 0]"

definition attr_file_dirty :: "byte list" where
  "attr_file_dirty =
     [0x43, 0x44, 0x46, 1,  0, 0, 0, 0,  0, 0, 0, 0,
      0, 0, 0, 0x0B,  0, 0, 0, 1,
      0, 0, 0, 1,  0x74, 0xFF, 0xFF, 0xFF,  0, 0, 0, 0,
      0, 0, 0, 0x0C,  0, 0, 0, 1,
      0, 0, 0, 1,  0x61, 1, 2, 3,  0, 0, 0, 2,  0, 0, 0, 1,  0x78, 0xAA, 0xBB, 0xCC,
      0, 0, 0, 5,  0, 0, 0, 4,  0, 0, 0, 0]"

section \<open>Basic facts\<close>

subsection \<open>Sequencing\<close>

lemma bindE_Inl:
  "bindE m k f = (Inl e, g) \<longleftrightarrow>
     m f = (Inl e, g) \<or> (\<exists>x f'. m f = (Inr x, f') \<and> k x f' = (Inl e, g))"
  by (auto simp: bindE_def split: prod.splits sum.splits)

lemma bindE_Inr:
  "bindE m k f = (Inr y, g) \<longleftrightarrow> (\<exists>x f'. m f = (Inr x, f') \<and> k x f' = (Inr y, g))"
  by (auto simp: bindE_def split: prod.splits sum.splits)

lemma bindE_ok: "m f = (Inr x, f') \<Longrightarrow> bindE m k f = k x f'"
  by (simp add: bindE_def)

lemma bindE_err: "m f = (Inl e, f') \<Longrightarrow> bindE m k f = (Inl e, f')"
  by (simp add: bindE_def)

subsection \<open>Reads\<close>

lemma fRead_enough:
  "pos f + k \<le> length (data f) \<Longrightarrow>
     fRead k f = (Inr (take k (drop (pos f) (data f))), f\<lparr>pos := pos f + k\<rparr>)"
  by (auto simp: fRead_def Let_def min_def)

lemma fRead_eof:
  "0 < k \<Longrightarrow> length (data f) \<le> pos f \<Longrightarrow> fRead k f = (Inl EOF, f)"
  by (simp add: fRead_def)

lemma fRead_err:
  "fRead k f = (Inl e, g) \<Longrightarrow> e = EOF \<and> g = f \<and> 0 < k \<and> length (data f) \<le> pos f"
  by (auto simp: fRead_def Let_def split: if_splits)

lemma readU32_enough:
  "pos f + 4 \<le> length (data f) \<Longrightarrow> readU32 f = (Inr (word_at f), f\<lparr>pos := pos f + 4\<rparr>)"
  by (simp add: readU32_def bindE_def fRead_enough succeed_def word_at_def)

lemma readU32_err: "readU32 f = (Inl e, g) \<Longrightarrow> e = EOF \<and> g = f \<and> length (data f) \<le> pos f"
  by (auto simp: readU32_def bindE_Inl succeed_def dest: fRead_err)

lemma readU32_eof: "length (data f) \<le> pos f \<Longrightarrow> readU32 f = (Inl EOF, f)"
  by (simp add: readU32_def bindE_def fRead_eof)

subsection \<open>The errors each reader can return\<close>

lemma readString_err: "readString f = (Inl e, g) \<Longrightarrow> e = EOF"
  by (auto simp: readString_def bindE_Inl succeed_def fSeek_def Let_def split: if_splits
      dest: fRead_err readU32_err)

lemma readDims_err: "readDims k dims f = (Inl e, g) \<Longrightarrow> e = EOF"
  by (induction k arbitrary: dims f)
     (auto simp: bindE_Inl succeed_def dest: readString_err readU32_err)

lemma readDimList_err:
  "readDimList nc f = (Inl e, g) \<Longrightarrow> e = EOF \<or> (\<exists>t. e = InvalidDimListTag t)"
  by (auto simp: readDimList_def bindE_Inl succeed_def throw_def split: if_splits
      dest: readDims_err readU32_err)

lemma readAttrs_err: "readAttrs k attrs f = (Inl e, g) \<Longrightarrow> e = EOF"
  by (induction k arbitrary: attrs f)
     (auto simp: bindE_Inl succeed_def Let_def split: if_splits
       dest: readString_err readU32_err fRead_err)

lemma readAttrList_err:
  "readAttrList f = (Inl e, g) \<Longrightarrow> e = EOF \<or> (\<exists>t. e = InvalidAttrListTag t)"
  by (auto simp: readAttrList_def bindE_Inl succeed_def throw_def split: if_splits
      dest: readAttrs_err readU32_err)

lemma readDimIDs_err: "readDimIDs k ids f = (Inl e, g) \<Longrightarrow> e = EOF"
  by (induction k arbitrary: ids f) (auto simp: bindE_Inl succeed_def dest: readU32_err)

lemma readVars_err:
  "readVars k vars f = (Inl e, g) \<Longrightarrow> e = EOF \<or> (\<exists>t. e = InvalidAttrListTag t)"
  by (induction k arbitrary: vars f)
     (auto simp: bindE_Inl succeed_def
       dest: readString_err readU32_err readDimIDs_err readAttrList_err)

lemma readVarList_err:
  "readVarList nc f = (Inl e, g) \<Longrightarrow>
     e = EOF \<or> (\<exists>t. e = InvalidAttrListTag t) \<or> (\<exists>t. e = InvalidVarListTag t)"
  by (auto simp: readVarList_def bindE_Inl succeed_def throw_def split: if_splits
      dest: readVars_err readU32_err)

subsection \<open>The list readers change one field of the header value\<close>

lemma readDimList_ok:
  "readDimList nc f = (Inr nc', g) \<Longrightarrow>
     Format nc' = Format nc \<and> NumRecs nc' = NumRecs nc \<and> Vars nc' = Vars nc"
  by (auto simp: readDimList_def bindE_Inr succeed_def throw_def split: if_splits)

lemma readVarList_ok:
  "readVarList nc f = (Inr nc', g) \<Longrightarrow>
     Format nc' = Format nc \<and> NumRecs nc' = NumRecs nc \<and> Dims nc' = Dims nc"
  by (auto simp: readVarList_def bindE_Inr succeed_def throw_def split: if_splits)

subsection \<open>The leading bytes\<close>

lemma header_read:
  "4 \<le> length bs \<Longrightarrow> fRead 4 (opened bs) = (Inr (take 4 bs), (opened bs)\<lparr>pos := 4\<rparr>)"
  using fRead_enough [of "opened bs" 4] by (simp add: opened_def)

section \<open>Magic and format byte\<close>

text \<open>
  C6. For every file of at least four bytes: when the first three bytes are not "CDF",
  \<^verbatim>\<open>Open\<close> returns no file and the error "not a NetCDF file"; when they are "CDF", the
  error that \<^verbatim>\<open>Open\<close> returns, if any, is not that one, so the parse went past the check
  of the magic.
\<close>

theorem Open_magic:
  assumes "4 \<le> length bs"
  shows "(take 3 bs \<noteq> CDF \<longrightarrow> Open bs = (None, Some NotNetCDF)) \<and>
         (take 3 bs = CDF \<longrightarrow> snd (Open bs) \<noteq> Some NotNetCDF)"
proof (intro conjI impI)
  assume "take 3 bs \<noteq> CDF"
  with assms show "Open bs = (None, Some NotNetCDF)"
    by (simp add: Open_def Open_from_def header_read)
next
  assume "take 3 bs = CDF"
  with assms show "snd (Open bs) \<noteq> Some NotNetCDF"
    by (auto simp: Open_def Open_from_def header_read Let_def
        split: prod.splits sum.splits dest: fRead_err readDimList_err readVarList_err)
qed

theorem Open_magic_witness:
  "Open [0x4E, 0x43, 0x44, 0x46] = (None, Some NotNetCDF) \<and>
   snd (Open [0x43, 0x44, 0x46, 0x01]) \<noteq> Some NotNetCDF"
  using Open_magic [of "[0x4E, 0x43, 0x44, 0x46]"] Open_magic [of "[0x43, 0x44, 0x46, 0x01]"]
  by (simp add: CDF_def)

text \<open>
  C7. For every file of at least four bytes that starts with "CDF": when the fourth byte is
  neither 1 nor 2, \<^verbatim>\<open>Open\<close> returns no file and the error "unsupported NetCDF format"
  carrying that byte; whenever \<^verbatim>\<open>Open\<close> returns a file, its \<^verbatim>\<open>Format\<close> is the fourth byte,
  so it is \<^verbatim>\<open>ClassicFormat\<close> for 1 and \<^verbatim>\<open>Format64BitOffset\<close> for 2.
\<close>

theorem Open_format:
  assumes "4 \<le> length bs" and "take 3 bs = CDF"
  shows "(bs ! 3 \<noteq> 1 \<and> bs ! 3 \<noteq> 2 \<longrightarrow> Open bs = (None, Some (UnsupportedFormat (bs ! 3)))) \<and>
         (\<forall>nc. fst (Open bs) = Some nc \<longrightarrow>
            Format nc = bs ! 3 \<and>
            (bs ! 3 = 1 \<longrightarrow> Format nc = ClassicFormat) \<and>
            (bs ! 3 = 2 \<longrightarrow> Format nc = Format64BitOffset))"
proof -
  have fmt: "take 4 bs ! 3 = bs ! 3"
    by simp
  have bad: "Open bs = (None, Some (UnsupportedFormat (bs ! 3)))"
    if "bs ! 3 \<noteq> 1" "bs ! 3 \<noteq> 2"
    using that assms
    by (simp add: Open_def Open_from_def header_read fmt ClassicFormat_def Format64BitOffset_def)
  have good: "Format nc = bs ! 3" if "fst (Open bs) = Some nc" for nc
    using that assms
    by (auto simp: Open_def Open_from_def header_read fmt Let_def
        split: prod.splits sum.splits if_splits
        dest!: readDimList_ok readVarList_ok)
  show ?thesis
    using bad good by (auto simp: ClassicFormat_def Format64BitOffset_def)
qed

theorem Open_format_witness:
  "Open [0x43, 0x44, 0x46, 5] = (None, Some (UnsupportedFormat 5)) \<and>
   (\<exists>nc. fst (Open [0x43, 0x44, 0x46, 2, 0, 0, 0, 0, 0, 0, 0, 0, 0, 0, 0, 0]) = Some nc \<and>
      Format nc = Format64BitOffset)"
proof -
  have ok: "fst (Open [0x43, 0x44, 0x46, 2, 0, 0, 0, 0, 0, 0, 0, 0, 0, 0, 0, 0]) \<noteq> None"
    by code_simp
  show ?thesis
    using ok Open_format [of "[0x43, 0x44, 0x46, 5]"]
      Open_format [of "[0x43, 0x44, 0x46, 2, 0, 0, 0, 0, 0, 0, 0, 0, 0, 0, 0, 0]"]
    by (auto simp: CDF_def Format64BitOffset_def)
qed

section \<open>Structure of the loops and of Open\<close>







lemma after_header_reads:
  assumes "header_ok bs"
  shows "fRead 4 (opened bs) = (Inr (take 4 bs), (opened bs)\<lparr>pos := 4\<rparr>)"
    and "fRead 4 ((opened bs)\<lparr>pos := 4\<rparr>) = (Inr (take 4 (drop 4 bs)), after_header bs)"
proof -
  from assms have len: "8 \<le> length bs"
    by (simp add: header_ok_def)
  then show "fRead 4 (opened bs) = (Inr (take 4 bs), (opened bs)\<lparr>pos := 4\<rparr>)"
    by (simp add: header_read)
  from len show "fRead 4 ((opened bs)\<lparr>pos := 4\<rparr>) = (Inr (take 4 (drop 4 bs)), after_header bs)"
    using fRead_enough [of "(opened bs)\<lparr>pos := 4\<rparr>" 4]
    by (simp add: opened_def after_header_def)
qed

lemma Open_lists:
  assumes "header_ok bs"
  shows "Open bs =
     (case readDimList (initial_File bs) (after_header bs) of
        (Inl err, f3) \<Rightarrow> (None, Some err)
      | (Inr nc1, f3) \<Rightarrow> returned (readVarList nc1 f3))"
proof -
  from assms have "take 3 bs = CDF" "bs ! 3 = ClassicFormat \<or> bs ! 3 = Format64BitOffset"
    "take 4 bs ! 3 = bs ! 3"
    by (auto simp: header_ok_def)
  then show ?thesis
    by (auto simp: Open_def Open_from_def after_header_reads [OF assms] Let_def
        initial_File_def returned_def split: prod.splits sum.splits)
qed

lemma Open_dim_err:
  "header_ok bs \<Longrightarrow> readDimList (initial_File bs) (after_header bs) = (Inl e, g) \<Longrightarrow>
     Open bs = (None, Some e)"
  by (simp add: Open_lists)



section \<open>Tagged lists\<close>





section \<open>The order of the lists\<close>

text \<open>
  C1, as the claim states it, fails: on \<open>gatt_file\<close>, a stream laid out per the grammar, the
  specification's order of lists decodes the global attribute and an empty variable
  sequence, while \<^verbatim>\<open>Open\<close> hands the word \<^verbatim>\<open>0x0C\<close> to \<^verbatim>\<open>readVarList\<close> and fails.
\<close>

theorem gatt_counterexample:
  "Open gatt_file = (None, Some (InvalidVarListTag 0x0C)) \<and>
   fst (parseHeader_spec (opened gatt_file)) =
     Inr \<lparr>header = \<lparr>Format = 1, NumRecs = 0, Dims = [], Vars = []\<rparr>,
          globalAttrs = [\<lparr>Attribute.Name = [0x61], Type = 2, Values = [0x78]\<rparr>]\<rparr>"
  by code_simp

text \<open>
  C1, amended. After the magic, the format byte and the record count, \<^verbatim>\<open>Open\<close> decodes the
  dimension list and then the variable list, from the bytes that follow the dimension list
  directly; no global attribute list is read between them. When the dimension list fails
  \<^verbatim>\<open>Open\<close> returns its error; otherwise \<^verbatim>\<open>Open\<close> returns what \<^verbatim>\<open>readVarList\<close> makes of the
  handle as \<^verbatim>\<open>readDimList\<close> left it: a word \<^verbatim>\<open>0x0C\<close> there is an invalid variable-list tag,
  and a word 0 there is an absent variable list.
\<close>

theorem Open_dims_then_vars:
  assumes "header_ok bs"
  shows "(\<forall>e g. readDimList (initial_File bs) (after_header bs) = (Inl e, g) \<longrightarrow>
            Open bs = (None, Some e)) \<and>
         (\<forall>nc1 g. readDimList (initial_File bs) (after_header bs) = (Inr nc1, g) \<longrightarrow>
            Open bs = returned (readVarList nc1 g) \<and>
            (\<forall>g'. readU32 g = (Inr 0x0C, g') \<longrightarrow> Open bs = (None, Some (InvalidVarListTag 0x0C))) \<and>
            (\<forall>g'. readU32 g = (Inr 0, g') \<longrightarrow> Open bs = (Some (nc1\<lparr>Vars := []\<rparr>), None)))"
proof (intro conjI allI impI)
  fix e g
  assume "readDimList (initial_File bs) (after_header bs) = (Inl e, g)"
  with assms show "Open bs = (None, Some e)"
    by (rule Open_dim_err)
next
  fix nc1 g
  assume dims: "readDimList (initial_File bs) (after_header bs) = (Inr nc1, g)"
  with assms show vars: "Open bs = returned (readVarList nc1 g)"
    by (simp add: Open_lists)
  show "Open bs = (None, Some (InvalidVarListTag 0x0C))" if "readU32 g = (Inr 0x0C, g')" for g'
    using that by (simp add: vars returned_def readVarList_def bindE_ok throw_def)
  show "Open bs = (Some (nc1\<lparr>Vars := []\<rparr>), None)" if "readU32 g = (Inr 0, g')" for g'
    using that by (simp add: vars returned_def readVarList_def bindE_ok succeed_def)
qed

theorem Open_dims_then_vars_witness:
  "header_ok gatt_file \<and>
   readDimList (initial_File gatt_file) (after_header gatt_file) =
     (Inr (initial_File gatt_file), (after_header gatt_file)\<lparr>pos := 12\<rparr>) \<and>
   readU32 ((after_header gatt_file)\<lparr>pos := 12\<rparr>) = (Inr 0x0C, (after_header gatt_file)\<lparr>pos := 16\<rparr>) \<and>
   Open gatt_file = returned (readVarList (initial_File gatt_file) ((after_header gatt_file)\<lparr>pos := 12\<rparr>)) \<and>
   Open gatt_file = (None, Some (InvalidVarListTag 0x0C))"
proof -
  have hdr: "header_ok gatt_file"
    and dims: "readDimList (initial_File gatt_file) (after_header gatt_file) =
      (Inr (initial_File gatt_file), (after_header gatt_file)\<lparr>pos := 12\<rparr>)"
    and tag: "readU32 ((after_header gatt_file)\<lparr>pos := 12\<rparr>) =
      (Inr 0x0C, (after_header gatt_file)\<lparr>pos := 16\<rparr>)"
    by code_simp+
  show ?thesis
    using hdr dims tag Open_dims_then_vars [OF hdr] by blast
qed

text \<open>
  C2, as the claim states it, fails: on the scenario's stream, with the word of the absent
  global attribute list between the lists, \<^verbatim>\<open>Open\<close> succeeds with no variables, since that
  word is read as the tag of the variable list.
\<close>

theorem scenario_counterexample:
  "Open scenario_file = (Some \<lparr>Format = 1, NumRecs = 0, Dims = [lat], Vars = []\<rparr>, None) \<and>
   \<not> (\<exists>nc. Open scenario_file = (Some nc, None) \<and> Vars nc = [temp])"
proof -
  have "Open scenario_file = (Some \<lparr>Format = 1, NumRecs = 0, Dims = [lat], Vars = []\<rparr>, None)"
    by code_simp
  then show ?thesis
    by simp
qed

text \<open>
  C2, amended. On the stream of the scenario without the word of the global attribute list
  (the variable list directly after the dimension list), \<^verbatim>\<open>Open\<close> succeeds and the
  variables are the one variable "temp" of the scenario.
\<close>

theorem dims_vars_scenario:
  "Open dims_vars_file = (Some \<lparr>Format = 1, NumRecs = 0, Dims = [lat], Vars = [temp]\<rparr>, None)"
  by code_simp

section \<open>Text\<close>








section \<open>The offset of a variable\<close>

lemma or_as_sum:
  fixes a b c d :: "8 word"
  shows "(ucast d OR push_bit 8 (ucast c) OR push_bit 16 (ucast b) OR push_bit 24 (ucast a) :: 32 word)
     = ucast d + (push_bit 8 (ucast c) + (push_bit 16 (ucast b) + push_bit 24 (ucast a)))"
proof -
  have 1: "(push_bit 16 (ucast b) + push_bit 24 (ucast a) :: 32 word) = push_bit 16 (ucast b) OR push_bit 24 (ucast a)"
    by (rule disjunctive_add) (auto simp: bit_simps dest: bit_imp_le_length)
  have 2: "(push_bit 8 (ucast c) + (push_bit 16 (ucast b) OR push_bit 24 (ucast a)) :: 32 word)
      = push_bit 8 (ucast c) OR (push_bit 16 (ucast b) OR push_bit 24 (ucast a))"
    by (rule disjunctive_add) (auto simp: bit_simps dest: bit_imp_le_length)
  have 3: "(ucast d + (push_bit 8 (ucast c) OR (push_bit 16 (ucast b) OR push_bit 24 (ucast a))) :: 32 word)
      = ucast d OR (push_bit 8 (ucast c) OR (push_bit 16 (ucast b) OR push_bit 24 (ucast a)))"
    by (rule disjunctive_add) (auto simp: bit_simps dest: bit_imp_le_length)
  show ?thesis
    by (simp add: 1 2 3 ac_simps)
qed

lemma byte_sum_bound:
  fixes a b c d :: "8 word"
  shows "((unat a * 256 + unat b) * 256 + unat c) * 256 + unat d < 2 ^ 32"
proof -
  have "unat a < 256" "unat b < 256" "unat c < 256" "unat d < 256"
    using unsigned_less [of a] unsigned_less [of b] unsigned_less [of c] unsigned_less [of d]
    by simp_all
  then show ?thesis
    by simp
qed

lemma be_value:
  fixes a b c d :: "8 word"
  shows "unat (ucast d OR push_bit 8 (ucast c) OR push_bit 16 (ucast b) OR push_bit 24 (ucast a) :: 32 word)
     = ((unat a * 256 + unat b) * 256 + unat c) * 256 + unat d"
proof -
  define K where "K = ((unat a * 256 + unat b) * 256 + unat c) * 256 + unat d"
  define X :: "32 word"
    where "X = ucast d + (push_bit 8 (ucast c) + (push_bit 16 (ucast b) + push_bit 24 (ucast a)))"
  have u: "(ucast x :: 32 word) = of_nat (unat x)" for x :: "8 word"
    by simp
  have "X = of_nat K"
    unfolding X_def K_def u push_bit_eq_mult by simp
  then have "unat X = K mod 2 ^ 32"
    by (simp only: unat_of_nat) simp
  also have "\<dots> = K"
    using byte_sum_bound [of a b c d] by (simp add: K_def)
  finally show ?thesis
    unfolding X_def K_def or_as_sum .
qed

lemma Uint32_be:
  "unat (Uint32 [a, b, c, d]) = ((unat a * 256 + unat b) * 256 + unat c) * 256 + unat d"
  by (simp add: Uint32_def be_value)

lemma word_at_be:
  assumes "pos f + 4 \<le> length (data f)"
  shows "unat (word_at f) =
     ((unat (data f ! pos f) * 256 + unat (data f ! (pos f + 1))) * 256
        + unat (data f ! (pos f + 2))) * 256 + unat (data f ! (pos f + 3))"
proof -
  have "take 4 (drop (pos f) (data f)) =
      [data f ! pos f, data f ! (pos f + 1), data f ! (pos f + 2), data f ! (pos f + 3)]"
    using assms
    by (auto simp: list_eq_iff_nth_eq nth_Cons numeral_3_eq_3 numeral_2_eq_2 split: nat.splits)
  then show ?thesis
    by (simp add: word_at_def Uint32_be)
qed

lemma readVarList_Format:
  "readVarList (nc\<lparr>Format := fmt\<rparr>) f =
     (case readVarList nc f of
        (Inl e, g) \<Rightarrow> (Inl e, g)
      | (Inr nc', g) \<Rightarrow> (Inr (nc'\<lparr>Format := fmt\<rparr>), g))"
  by (simp add: readVarList_def bindE_def succeed_def throw_def split: prod.splits sum.splits)

text \<open>
  C8. The variable reader does not look at the format: \<^verbatim>\<open>readVarList\<close> on a \<^verbatim>\<open>File\<close> with
  another \<^verbatim>\<open>Format\<close> returns the same variables, the same error and the same handle. Once
  the name, the dimension ids, the attribute list, the type and the vsize of a variable are
  decoded, the offset is one \<^verbatim>\<open>readU32\<close>: it fails with \<^verbatim>\<open>io.EOF\<close> at the end of the file, and
  when four bytes remain it is their big-endian value and the loop goes on four bytes
  further, never eight.
\<close>

theorem offset_one_word:
  "readVarList (nc\<lparr>Format := fmt\<rparr>) f =
     (case readVarList nc f of
        (Inl e, g) \<Rightarrow> (Inl e, g)
      | (Inr nc', g) \<Rightarrow> (Inr (nc'\<lparr>Format := fmt\<rparr>), g)) \<and>
   (readString f = (Inr name, f1) \<and> readU32 f1 = (Inr nDims, f2) \<and>
    readDimIDs (unat nDims) [] f2 = (Inr dimIDs, f3) \<and> readAttrList f3 = (Inr attrs, f4) \<and>
    readU32 f4 = (Inr dtype, f5) \<and> readU32 f5 = (Inr vsize, f6) \<longrightarrow>
      readVars (Suc k) vars f =
        bindE readU32 (\<lambda>offset.
          readVars k (vars @ [\<lparr>Variable.Name = name, DimIDs = dimIDs, DataType = dtype,
                               VSize = vsize, Offset = offset, Attrs = attrs\<rparr>])) f6 \<and>
      (length (data f6) \<le> pos f6 \<longrightarrow> readVars (Suc k) vars f = (Inl EOF, f6)) \<and>
      (pos f6 + 4 \<le> length (data f6) \<longrightarrow>
         readVars (Suc k) vars f =
           readVars k (vars @ [\<lparr>Variable.Name = name, DimIDs = dimIDs, DataType = dtype,
                                VSize = vsize, Offset = word_at f6, Attrs = attrs\<rparr>])
             (f6\<lparr>pos := pos f6 + 4\<rparr>) \<and>
         unat (word_at f6) =
           ((unat (data f6 ! pos f6) * 256 + unat (data f6 ! (pos f6 + 1))) * 256
              + unat (data f6 ! (pos f6 + 2))) * 256 + unat (data f6 ! (pos f6 + 3))))"
proof (intro conjI impI)
  show "readVarList (nc\<lparr>Format := fmt\<rparr>) f =
     (case readVarList nc f of
        (Inl e, g) \<Rightarrow> (Inl e, g)
      | (Inr nc', g) \<Rightarrow> (Inr (nc'\<lparr>Format := fmt\<rparr>), g))"
    by (rule readVarList_Format)
next
  assume fields: "readString f = (Inr name, f1) \<and> readU32 f1 = (Inr nDims, f2) \<and>
    readDimIDs (unat nDims) [] f2 = (Inr dimIDs, f3) \<and> readAttrList f3 = (Inr attrs, f4) \<and>
    readU32 f4 = (Inr dtype, f5) \<and> readU32 f5 = (Inr vsize, f6)"
  then show step: "readVars (Suc k) vars f =
        bindE readU32 (\<lambda>offset.
          readVars k (vars @ [\<lparr>Variable.Name = name, DimIDs = dimIDs, DataType = dtype,
                               VSize = vsize, Offset = offset, Attrs = attrs\<rparr>])) f6"
    by (simp add: bindE_ok)
  show "readVars (Suc k) vars f = (Inl EOF, f6)" if "length (data f6) \<le> pos f6"
    unfolding step using that by (simp add: bindE_err readU32_eof)
  show "readVars (Suc k) vars f =
           readVars k (vars @ [\<lparr>Variable.Name = name, DimIDs = dimIDs, DataType = dtype,
                                VSize = vsize, Offset = word_at f6, Attrs = attrs\<rparr>])
             (f6\<lparr>pos := pos f6 + 4\<rparr>)" if "pos f6 + 4 \<le> length (data f6)"
    unfolding step using that by (simp add: bindE_ok readU32_enough)
  show "unat (word_at f6) =
           ((unat (data f6 ! pos f6) * 256 + unat (data f6 ! (pos f6 + 1))) * 256
              + unat (data f6 ! (pos f6 + 2))) * 256 + unat (data f6 ! (pos f6 + 3))"
    if "pos f6 + 4 \<le> length (data f6)"
    using that by (rule word_at_be)
qed

theorem offset_one_word_witness:
  "readVars (Suc 0) [] \<lparr>data = offset64_file, pos = 20, skipped = {}\<rparr> =
     (Inr [\<lparr>Variable.Name = [0x74], DimIDs = [], DataType = 5, VSize = 4, Offset = 0,
            Attrs = []\<rparr>],
      \<lparr>data = offset64_file, pos = 48, skipped = {25, 26, 27}\<rparr>) \<and>
   Open offset64_file =
     (Some \<lparr>Format = 2, NumRecs = 0, Dims = [],
        Vars = [\<lparr>Variable.Name = [0x74], DimIDs = [], DataType = 5, VSize = 4, Offset = 0,
                 Attrs = []\<rparr>]\<rparr>, None)"
proof -
  let ?f = "\<lparr>data = offset64_file, pos = 20, skipped = {}\<rparr>"
  let ?g = "\<lambda>p. \<lparr>data = offset64_file, pos = p, skipped = {25, 26, 27}\<rparr>"
  have name: "readString ?f = (Inr [0x74], ?g 28)"
    and ndims: "readU32 (?g 28) = (Inr 0, ?g 32)"
    and ids: "readDimIDs (unat (0 :: uint32)) [] (?g 32) = (Inr [], ?g 32)"
    and attrs: "readAttrList (?g 32) = (Inr [], ?g 36)"
    and dtype: "readU32 (?g 36) = (Inr 5, ?g 40)"
    and vsize: "readU32 (?g 40) = (Inr 4, ?g 44)"
    and len: "pos (?g 44) + 4 \<le> length (data (?g 44))"
    and off: "word_at (?g 44) = 0"
    and whole: "Open offset64_file =
     (Some \<lparr>Format = 2, NumRecs = 0, Dims = [],
        Vars = [\<lparr>Variable.Name = [0x74], DimIDs = [], DataType = 5, VSize = 4, Offset = 0,
                 Attrs = []\<rparr>]\<rparr>, None)"
    by code_simp+
  have "readVars (Suc 0) [] ?f =
      readVars 0 ([] @ [\<lparr>Variable.Name = [0x74], DimIDs = [], DataType = 5, VSize = 4,
                          Offset = word_at (?g 44), Attrs = []\<rparr>])
        ((?g 44)\<lparr>pos := pos (?g 44) + 4\<rparr>)"
    using offset_one_word [where nc = "initial_File offset64_file" and fmt = 1 and f = ?f
      and name = "[0x74]" and ?f1.0 = "?g 28" and nDims = 0 and ?f2.0 = "?g 32"
      and dimIDs = "[]" and ?f3.0 = "?g 32" and attrs = "[]" and ?f4.0 = "?g 36"
      and dtype = 5 and ?f5.0 = "?g 40" and vsize = 4 and ?f6.0 = "?g 44" and k = 0
      and vars = "[]"]
      name ndims ids attrs dtype vsize len
    by blast
  then have "readVars (Suc 0) [] ?f =
     (Inr [\<lparr>Variable.Name = [0x74], DimIDs = [], DataType = 5, VSize = 4, Offset = 0,
            Attrs = []\<rparr>], ?g 48)"
    using off by (simp add: succeed_def del: readVars.simps(2))
  with whole show ?thesis
    by simp
qed

section \<open>Failures\<close>













section \<open>Padding\<close>

lemma forwardI:
  assumes "\<And>f r g. m f = (r, g) \<Longrightarrow>
     data g = data f \<and> pos f \<le> pos g \<and> skipped f \<subseteq> skipped g \<and>
     skipped g \<subseteq> skipped f \<union> {pos f ..< pos g}"
  shows "forward m"
  using assms unfolding forward_def by blast

lemma forwardD:
  assumes "forward m" and "m f = (r, g)"
  shows "data g = data f" and "pos f \<le> pos g" and "skipped f \<subseteq> skipped g"
    and "skipped g \<subseteq> skipped f \<union> {pos f ..< pos g}"
  using assms unfolding forward_def by blast+

lemma forward_behind: "forward m \<Longrightarrow> m f = (r, g) \<Longrightarrow> behind f \<Longrightarrow> behind g"
proof -
  assume m: "forward m" "m f = (r, g)" and bf: "behind f"
  note mg = forwardD [OF m]
  from bf mg(2,4) show "behind g"
    unfolding behind_def by (fastforce simp: subset_iff)
qed

lemma blindD:
  assumes "blind m" and "m f = (r, g)" and "behind f" and "pos f' = pos f"
    and "skipped f' = skipped f" and "length (data f') = length (data f)"
    and "\<And>i. pos f \<le> i \<Longrightarrow> i < pos g \<Longrightarrow> i < length (data f) \<Longrightarrow> i \<notin> skipped g \<Longrightarrow>
           data f' ! i = data f ! i"
  shows "m f' = (r, g\<lparr>data := data f'\<rparr>)"
  using assms unfolding blind_def by blast

lemma same_handle:
  "pos f' = pos f \<Longrightarrow> skipped f' = skipped f \<Longrightarrow> f\<lparr>data := data f'\<rparr> = (f' :: osFile)"
  by simp

lemma forward_succeed: "forward (succeed x)"
  by (rule forwardI) (auto simp: succeed_def)

lemma forward_throw: "forward (throw e)"
  by (rule forwardI) (auto simp: throw_def)

lemma forward_fRead: "forward (fRead k)"
  by (rule forwardI) (auto simp: fRead_def Let_def split: if_splits)

lemma forward_fSeek: "forward (fSeek k)"
  by (rule forwardI) (auto simp: fSeek_def)

lemma forward_bindE:
  assumes "forward m" and "\<And>x. forward (k x)"
  shows "forward (bindE m k)"
proof (rule forwardI)
  fix f r h
  assume run: "bindE m k f = (r, h)"
  obtain r1 g where m: "m f = (r1, g)"
    by (cases "m f")
  note mg = forwardD [OF assms(1) m]
  show "data h = data f \<and> pos f \<le> pos h \<and> skipped f \<subseteq> skipped h \<and>
     skipped h \<subseteq> skipped f \<union> {pos f ..< pos h}"
  proof (cases r1)
    case (Inl e)
    with run m have "h = g"
      by (simp add: bindE_def)
    with mg show ?thesis
      by simp
  next
    case (Inr x)
    with run m have "k x g = (r, h)"
      by (simp add: bindE_def)
    note kh = forwardD [OF assms(2) this]
    have "skipped h \<subseteq> skipped f \<union> {pos f ..< pos h}"
      using mg(2,4) kh(2,4) by (fastforce simp: subset_iff)
    with mg kh show ?thesis
      by auto
  qed
qed

lemma forward_if: "forward a \<Longrightarrow> forward b \<Longrightarrow> forward (if c then a else b)"
  by simp

lemma blind_succeed: "blind (succeed x)"
  unfolding blind_def by (auto simp: succeed_def)

lemma blind_throw: "blind (throw e)"
  unfolding blind_def by (auto simp: throw_def)

lemma blind_fSeek: "blind (fSeek k)"
  unfolding blind_def by (auto simp: fSeek_def)

lemma blind_fRead: "blind (fRead k)"
  unfolding blind_def
proof (intro allI impI, elim conjE)
  fix f f' :: osFile and r g
  assume run: "fRead k f = (r, g)" and bf: "behind f"
    and same: "pos f' = pos f" "skipped f' = skipped f" "length (data f') = length (data f)"
    and agree: "\<forall>i. pos f \<le> i \<and> i < pos g \<and> i < length (data f) \<and> i \<notin> skipped g \<longrightarrow>
        data f' ! i = data f ! i"
  show "fRead k f' = (r, g\<lparr>data := data f'\<rparr>)"
  proof (cases "k = 0 \<or> length (data f) \<le> pos f")
    case True
    with run same show ?thesis
      by (auto simp: fRead_def)
  next
    case False
    let ?got = "take k (drop (pos f) (data f))"
    from False run have g: "g = f\<lparr>pos := pos f + length ?got\<rparr>"
      and r: "r = Inr (?got @ replicate (k - length ?got) 0)"
      by (auto simp: fRead_def Let_def)
    have "take k (drop (pos f) (data f')) = ?got"
    proof (rule nth_equalityI)
      show "length (take k (drop (pos f) (data f'))) = length ?got"
        using same by simp
    next
      fix i
      assume "i < length (take k (drop (pos f) (data f')))"
      then have i: "i < k" "pos f + i < length (data f)"
        using same by auto
      then have "pos f + i < pos g"
        unfolding g by simp
      moreover have "pos f + i \<notin> skipped g"
        using bf unfolding g behind_def by auto
      ultimately have "data f' ! (pos f + i) = data f ! (pos f + i)"
        using agree i by simp
      with i same show "take k (drop (pos f) (data f')) ! i = ?got ! i"
        by simp
    qed
    with False same show ?thesis
      unfolding g r by (simp add: fRead_def Let_def)
  qed
qed

lemma blind_bindE:
  assumes mm: "forward m" and mk: "\<And>x. forward (k x)" and bm: "blind m" and bk: "\<And>x. blind (k x)"
  shows "blind (bindE m k)"
  unfolding blind_def
proof (intro allI impI, elim conjE)
  fix f f' :: osFile and r h
  assume run: "bindE m k f = (r, h)" and bf: "behind f"
    and same: "pos f' = pos f" "skipped f' = skipped f" "length (data f') = length (data f)"
    and agree: "\<forall>i. pos f \<le> i \<and> i < pos h \<and> i < length (data f) \<and> i \<notin> skipped h \<longrightarrow>
        data f' ! i = data f ! i"
  obtain r1 g where m: "m f = (r1, g)"
    by (cases "m f")
  note mg = forwardD [OF mm m]
  show "bindE m k f' = (r, h\<lparr>data := data f'\<rparr>)"
  proof (cases r1)
    case (Inl e)
    with run m have h: "h = g" "r = Inl e"
      by (simp_all add: bindE_def)
    have "m f' = (r1, g\<lparr>data := data f'\<rparr>)"
      by (rule blindD [OF bm m bf same]) (use agree h in auto)
    then show ?thesis
      unfolding h Inl by (simp add: bindE_def)
  next
    case (Inr x)
    with run m have kx: "k x g = (r, h)"
      by (simp add: bindE_def)
    note kh = forwardD [OF mk kx]
    have first: "m f' = (r1, g\<lparr>data := data f'\<rparr>)"
    proof (rule blindD [OF bm m bf same])
      fix i
      assume i: "pos f \<le> i" "i < pos g" "i < length (data f)" "i \<notin> skipped g"
      with kh have "i \<notin> skipped h"
        by auto
      with i kh agree show "data f' ! i = data f ! i"
        by auto
    qed
    have "k x (g\<lparr>data := data f'\<rparr>) = (r, h\<lparr>data := data (g\<lparr>data := data f'\<rparr>)\<rparr>)"
    proof (rule blindD [OF bk kx forward_behind [OF mm m bf]])
      fix i
      assume "pos g \<le> i" "i < pos h" "i < length (data g)" "i \<notin> skipped h"
      with mg agree show "data (g\<lparr>data := data f'\<rparr>) ! i = data g ! i"
        by auto
    qed (use mg same in simp_all)
    with first show ?thesis
      unfolding Inr by (simp add: bindE_def)
  qed
qed

lemma seek_then:
  "(\<lambda>f. X (if c then snd (fSeek n f) else f)) =
     bindE (if c then fSeek n else succeed 0) (\<lambda>_. X)"
  by (rule ext) (simp add: bindE_def fSeek_def succeed_def)

lemmas forward_prims =
  forward_bindE forward_succeed forward_throw forward_fRead forward_fSeek

lemmas blind_prims =
  blind_bindE blind_succeed blind_throw blind_fRead blind_fSeek

lemma forward_readU32: "forward readU32"
  unfolding readU32_def by (intro forward_prims)

lemma blind_readU32: "blind readU32"
  unfolding readU32_def by (intro blind_prims forward_prims)

lemma forward_readString: "forward readString"
  unfolding readString_def Let_def
  by (intro forward_prims forward_readU32 forward_if)

lemma blind_if: "blind a \<Longrightarrow> blind b \<Longrightarrow> blind (if c then a else b)"
  by simp

lemma blind_readString: "blind readString"
  unfolding readString_def Let_def
  by (intro blind_prims forward_prims forward_readU32 blind_readU32 forward_if blind_if)

lemma forward_readDims: "forward (readDims k dims)"
  by (induction k arbitrary: dims)
     (auto intro!: forward_prims forward_readU32 forward_readString)

lemma blind_readDims: "blind (readDims k dims)"
  by (induction k arbitrary: dims)
     (auto intro!: blind_prims forward_prims forward_readU32 forward_readString
        blind_readU32 blind_readString forward_readDims)

lemma forward_readDimList: "forward (readDimList nc)"
  unfolding readDimList_def
  by (intro forward_prims forward_readU32 forward_if forward_readDims)

lemma blind_readDimList: "blind (readDimList nc)"
  unfolding readDimList_def
  by (intro blind_prims forward_prims forward_readU32 blind_readU32 forward_if blind_if
      forward_readDims blind_readDims)

lemma forward_readAttrs: "forward (readAttrs k attrs)"
  by (induction k arbitrary: attrs)
     (auto simp: Let_def seek_then
        intro!: forward_prims forward_readU32 forward_readString)

lemma blind_readAttrs: "blind (readAttrs k attrs)"
  by (induction k arbitrary: attrs)
     (auto simp: Let_def seek_then
        intro!: blind_prims forward_prims forward_readU32 forward_readString
          blind_readU32 blind_readString forward_readAttrs)

lemma forward_readAttrList: "forward readAttrList"
  unfolding readAttrList_def
  by (intro forward_prims forward_readU32 forward_if forward_readAttrs)

lemma blind_readAttrList: "blind readAttrList"
  unfolding readAttrList_def
  by (intro blind_prims forward_prims forward_readU32 blind_readU32 forward_if blind_if
      forward_readAttrs blind_readAttrs)

lemma forward_readDimIDs: "forward (readDimIDs k ids)"
  by (induction k arbitrary: ids) (auto intro!: forward_prims forward_readU32)

lemma blind_readDimIDs: "blind (readDimIDs k ids)"
  by (induction k arbitrary: ids)
     (auto intro!: blind_prims forward_prims forward_readU32 blind_readU32 forward_readDimIDs)

lemma forward_readVars: "forward (readVars k vars)"
  by (induction k arbitrary: vars)
     (auto intro!: forward_prims forward_readU32 forward_readString forward_readDimIDs
        forward_readAttrList)

lemma blind_readVars: "blind (readVars k vars)"
  by (induction k arbitrary: vars)
     (auto intro!: blind_prims forward_prims forward_readU32 forward_readString
        forward_readDimIDs forward_readAttrList blind_readU32 blind_readString
        blind_readDimIDs blind_readAttrList forward_readVars)

lemma forward_readVarList: "forward (readVarList nc)"
  unfolding readVarList_def
  by (intro forward_prims forward_readU32 forward_if forward_readVars)

lemma blind_readVarList: "blind (readVarList nc)"
  unfolding readVarList_def
  by (intro blind_prims forward_prims forward_readU32 blind_readU32 forward_if blind_if
      forward_readVars blind_readVars)

lemma Open_from_seq:
  "Open_from f =
     (case Open_seq f of
        (Inl err, g) \<Rightarrow> ((None, Some err), g)
      | (Inr nc, g) \<Rightarrow> ((Some nc, None), g))"
  by (simp add: Open_from_def Open_seq_def bindE_def throw_def Let_def
      split: prod.splits sum.splits)

lemma forward_Open_seq: "forward Open_seq"
  unfolding Open_seq_def Let_def
  by (intro forward_prims forward_if forward_readDimList forward_readVarList)

lemma blind_Open_seq: "blind Open_seq"
  unfolding Open_seq_def Let_def
  by (intro blind_prims forward_prims forward_if blind_if forward_readDimList
      forward_readVarList blind_readDimList blind_readVarList)

lemma same_off_list:
  "same_off S bs bs' \<longleftrightarrow>
     length bs' = length bs \<and> list_all (\<lambda>i. i \<in> S \<or> bs' ! i = bs ! i) [0..<length bs]"
  by (auto simp: same_off_def list_all_iff)

text \<open>
  C10. The values of the padding bytes are never inspected: when a second file has the
  length of the first and the same byte at every offset that \<^verbatim>\<open>Open\<close> does not pass over
  with \<^verbatim>\<open>Seek\<close> on the first (the padding after a text payload and after the value bytes of
  an attribute), \<^verbatim>\<open>Open\<close> returns the same pair for both, file or error, and passes over the
  same offsets. Nothing requires the padding to be zero.
\<close>

theorem padding_not_inspected:
  assumes "same_off (padding bs) bs bs'"
  shows "Open bs' = Open bs \<and> padding bs' = padding bs"
proof -
  obtain r g where run: "Open_seq (opened bs) = (r, g)"
    by (cases "Open_seq (opened bs)")
  then have pad: "padding bs = skipped g"
    by (simp add: padding_def Open_from_seq split: sum.splits)
  have "Open_seq (opened bs') = (r, g\<lparr>data := data (opened bs')\<rparr>)"
  proof (rule blindD [OF blind_Open_seq run])
    show "behind (opened bs)"
      by (simp add: behind_def opened_def)
    show "pos (opened bs') = pos (opened bs)" "skipped (opened bs') = skipped (opened bs)"
      by (simp_all add: opened_def)
    show "length (data (opened bs')) = length (data (opened bs))"
      using assms by (simp add: opened_def same_off_def)
    fix i
    assume "i < length (data (opened bs))" "i \<notin> skipped g"
    with assms pad show "data (opened bs') ! i = data (opened bs) ! i"
      by (simp add: opened_def same_off_def)
  qed
  with run show ?thesis
    by (simp add: Open_def padding_def Open_from_seq split: sum.splits)
qed

theorem padding_not_inspected_witness:
  "padding attr_file = {25, 26, 27, 45, 46, 47, 57, 58, 59} \<and>
   same_off (padding attr_file) attr_file attr_file_dirty \<and>
   attr_file_dirty \<noteq> attr_file \<and>
   Open attr_file_dirty = Open attr_file \<and>
   Open attr_file =
     (Some \<lparr>Format = 1, NumRecs = 0, Dims = [],
        Vars = [\<lparr>Variable.Name = [0x74], DimIDs = [], DataType = 5, VSize = 4, Offset = 0,
                 Attrs = [\<lparr>Attribute.Name = [0x61], Type = 2, Values = [0x78]\<rparr>]\<rparr>]\<rparr>, None)"
proof -
  have pads: "padding attr_file = {25, 26, 27, 45, 46, 47, 57, 58, 59}"
    by code_simp
  have same: "same_off (padding attr_file) attr_file attr_file_dirty"
    unfolding same_off_list by code_simp
  have differ: "attr_file_dirty \<noteq> attr_file"
    by code_simp
  have result: "Open attr_file =
     (Some \<lparr>Format = 1, NumRecs = 0, Dims = [],
        Vars = [\<lparr>Variable.Name = [0x74], DimIDs = [], DataType = 5, VSize = 4, Offset = 0,
                 Attrs = [\<lparr>Attribute.Name = [0x61], Type = 2, Values = [0x78]\<rparr>]\<rparr>]\<rparr>, None)"
    by code_simp
  from padding_not_inspected [OF same] pads same differ result show ?thesis
    by simp
qed


end
